theory Spec2Isabelle
  imports Main
begin

section \<open>The sender/receiver layer of \<open>hpx/basic_execution/sender.hpp\<close>\<close>

text \<open>
  Everything in \<open>sender.hpp\<close> is decided when a call is compiled.  A class type is
  described by what the header can see of it: whether it is move constructible, whether
  it declares the member templates \<open>value_types\<close> and \<open>error_types\<close> and the static
  member \<open>sends_done\<close>, and whether the program specialises \<open>sender_traits\<close> for it
  explicitly, as the comment on \<open>sender_traits\<close> allows.  Of an explicit
  specialisation, which is user code, the description gives the members: which of the
  three it exposes, and whether it declares \<open>__unspecialized\<close>.
\<close>

record traits_members =
  exposes_value_types :: bool
  exposes_error_types :: bool
  exposes_sends_done :: bool
  unspecialized :: bool

record sender_type =
  move_constructible :: bool
  value_types :: bool
  error_types :: bool
  sends_done :: bool
  explicit_specialization :: "traits_members option"

text \<open>The three probes \<open>has_value_types\<close>, \<open>has_error_types\<close> and
  \<open>has_sends_done\<close>: the overload with the pointer parameter is viable exactly when the
  member exists, and is then preferred to the one with the ellipsis.\<close>

definition has_value_types :: "sender_type \<Rightarrow> bool" where
  "has_value_types S = (if value_types S then True else False)"

definition has_error_types :: "sender_type \<Rightarrow> bool" where
  "has_error_types S = (if error_types S then True else False)"

definition has_sends_done :: "sender_type \<Rightarrow> bool" where
  "has_sends_done S = (if sends_done S then True else False)"

definition has_sender_types :: "sender_type \<Rightarrow> bool" where
  "has_sender_types S = (has_value_types S \<and> has_error_types S \<and> has_sends_done S)"

text \<open>The members of \<open>sender_traits_base\<close>: the \<open>true\<close> specialisation re-exports
  the three members of the sender, the \<open>false\<close> one only declares
  \<open>__unspecialized\<close>.\<close>

definition sender_traits_base :: "bool \<Rightarrow> sender_type \<Rightarrow> traits_members" where
  "sender_traits_base HasSenderTraits S =
     (if HasSenderTraits
      then \<lparr>exposes_value_types = True, exposes_error_types = True,
            exposes_sends_done = True, unspecialized = False\<rparr>
      else \<lparr>exposes_value_types = False, exposes_error_types = False,
            exposes_sends_done = False, unspecialized = True\<rparr>)"

text \<open>\<open>sender_traits<S>\<close> for a class \<open>S\<close>: an explicit specialisation where the
  program has one, the primary template otherwise.\<close>

definition sender_traits :: "sender_type \<Rightarrow> traits_members" where
  "sender_traits S =
     (case explicit_specialization S of
        Some members \<Rightarrow> members
      | None \<Rightarrow> sender_traits_base (has_sender_types S) S)"

text \<open>\<open>detail::specialized<Sender>(nullptr)\<close>: the overload taking
  \<open>sender_traits<Sender>::__unspecialized*\<close> drops out by substitution failure when the
  marker is absent; when it is present it wins against the ellipsis and returns
  \<open>false\<close>.\<close>

definition specialized :: "sender_type \<Rightarrow> bool" where
  "specialized S = (if unspecialized (sender_traits S) then False else True)"

text \<open>\<open>is_sender<S>\<close> for a class \<open>S\<close>, and with the same value for \<open>S&\<close>,
  \<open>S&&\<close>, \<open>S const\<close>, \<open>S const&\<close> and the other forms in which \<open>connect\<close>
  deduces its \<open>Sender\<close>: \<open>std::decay\<close> gives \<open>S\<close>, and the partial specialisations
  of \<open>sender_traits\<close> lead to \<open>sender_traits<S>\<close>.\<close>

definition is_sender :: "sender_type \<Rightarrow> bool" where
  "is_sender S = (move_constructible S \<and> specialized S)"

text \<open>
  The query at any type.  A type is a class with its qualifiers: \<open>const\<close>,
  \<open>volatile\<close>, and whether it is a reference to the type so qualified.
\<close>

datatype reference = no_reference | lvalue_reference | rvalue_reference

record qualified_type =
  class_of :: sender_type
  is_const :: bool
  is_volatile :: bool
  reference_of :: reference

text \<open>Instantiating a template either gives a result or makes the program ill formed,
  which is an error of the compilation and not a substitution failure.\<close>

datatype 'a instantiated = ill_formed | well_formed 'a

text \<open>The partial specialisations of \<open>sender_traits\<close> at a type without reference:
  \<open>sender_traits<Sender const>\<close> and \<open>sender_traits<Sender volatile>\<close> each derive
  from \<open>sender_traits<Sender>\<close>.  For a type that is both \<open>const\<close> and
  \<open>volatile\<close> both match, with \<open>Sender = S volatile\<close> and \<open>Sender = S const\<close>, and
  neither is more specialised than the other: the instantiation is ambiguous.\<close>

definition sender_traits_cv :: "bool \<Rightarrow> bool \<Rightarrow> sender_type \<Rightarrow> traits_members instantiated" where
  "sender_traits_cv c v S =
     (if c \<and> v then ill_formed
      else if c then well_formed (sender_traits S)
      else if v then well_formed (sender_traits S)
      else well_formed (sender_traits S))"

text \<open>\<open>sender_traits<Sender&>\<close> and \<open>sender_traits<Sender&&>\<close> derive from
  \<open>sender_traits<Sender>\<close>, where \<open>Sender\<close> keeps its qualifiers.\<close>

definition sender_traits_at :: "qualified_type \<Rightarrow> traits_members instantiated" where
  "sender_traits_at T =
     (case reference_of T of
        no_reference \<Rightarrow> sender_traits_cv (is_const T) (is_volatile T) (class_of T)
      | lvalue_reference \<Rightarrow> sender_traits_cv (is_const T) (is_volatile T) (class_of T)
      | rvalue_reference \<Rightarrow> sender_traits_cv (is_const T) (is_volatile T) (class_of T))"

text \<open>\<open>is_sender<T>\<close> at any type \<open>T\<close>.  Overload resolution for
  \<open>detail::specialized<T>(nullptr)\<close> names \<open>sender_traits<T>::__unspecialized\<close> and
  so instantiates \<open>sender_traits<T>\<close>, whatever the other operand of \<open>&&\<close> is;
  \<open>std::decay<T>\<close> is the class.\<close>

definition is_sender_at :: "qualified_type \<Rightarrow> bool instantiated" where
  "is_sender_at T =
     (case sender_traits_at T of
        ill_formed \<Rightarrow> ill_formed
      | well_formed members \<Rightarrow>
          well_formed (move_constructible (class_of T)
                       \<and> (if unspecialized members then False else True)))"

subsection \<open>The \<open>connect\<close> customisation point\<close>

text \<open>
  An argument reaches \<open>connect\<close> through a forwarding reference, in one of the three
  forms the header enumerates: \<open>T&&\<close>, \<open>T&\<close> and \<open>T const&\<close>.
\<close>

datatype passing = Rvalue | Lvalue | Const_Lvalue

text \<open>
  Result types are named by strings.  What the header takes from elsewhere is a parameter
  of the model: for a pair of a sender and a receiver type, \<open>tag_invoke_connect\<close> is
  the type of \<open>hpx::functional::tag_invoke(connect, s, r)\<close> when that expression is
  well formed (\<open>is_tag_invocable\<close>), \<open>member_connect\<close> the type of
  \<open>s.connect(r)\<close> when the sender has such a member, \<open>receiver_ok\<close> is
  \<open>is_receiver_v<Receiver>\<close> and \<open>operation_state\<close> is
  \<open>is_operation_state_v\<close>.
\<close>

record connect_env =
  sender_info :: sender_type
  receiver_ok :: bool
  tag_invoke_connect :: "passing \<Rightarrow> passing \<Rightarrow> string option"
  member_connect :: "passing \<Rightarrow> passing \<Rightarrow> string option"
  operation_state :: "string \<Rightarrow> bool"

definition is_tag_invocable :: "connect_env \<Rightarrow> passing \<Rightarrow> passing \<Rightarrow> bool" where
  "is_tag_invocable E ps pr = (tag_invoke_connect E ps pr \<noteq> None)"

text \<open>The trailing return types: \<open>None\<close> is a substitution failure, \<open>Some t\<close> a
  well-formed expression of type \<open>t\<close>.  \<open>operation_select\<close> has an overload for
  \<open>std::true_type\<close> only; the one for \<open>std::false_type\<close> is commented out.\<close>

definition tag_invoke_impl :: "bool \<Rightarrow> connect_env \<Rightarrow> passing \<Rightarrow> passing \<Rightarrow> string option" where
  "tag_invoke_impl IsTagInvocable E ps pr =
     (if IsTagInvocable then tag_invoke_connect E ps pr else member_connect E ps pr)"

definition operation_select :: "bool \<Rightarrow> connect_env \<Rightarrow> passing \<Rightarrow> passing \<Rightarrow> string option" where
  "operation_select IsSender E ps pr =
     (if IsSender then tag_invoke_impl (is_tag_invocable E ps pr) E ps pr else None)"

definition connect_signature :: "connect_env \<Rightarrow> passing \<Rightarrow> passing \<Rightarrow> string option" where
  "connect_signature E ps pr = operation_select (is_sender (sender_info E)) E ps pr"

text \<open>A call of \<open>connect\<close>: without a viable \<open>operator()\<close> the call is ill formed;
  with one, the \<open>static_assert\<close> in its body demands an operation state.\<close>

datatype compiled = No_Viable_Overload | Static_Assert_Failed | Accepted string

definition connect :: "connect_env \<Rightarrow> passing \<Rightarrow> passing \<Rightarrow> compiled" where
  "connect E ps pr =
     (case connect_signature E ps pr of
        None \<Rightarrow> No_Viable_Overload
      | Some t \<Rightarrow> if operation_state E t then Accepted t else Static_Assert_Failed)"

text \<open>\<open>hpx::traits::is_callable<connect_t(A, B)>\<close> looks at the signature only.\<close>

definition is_callable_connect :: "connect_env \<Rightarrow> passing \<Rightarrow> passing \<Rightarrow> bool" where
  "is_callable_connect E ps pr = (connect_signature E ps pr \<noteq> None)"

definition is_sender_to_impl :: "bool \<Rightarrow> connect_env \<Rightarrow> bool" where
  "is_sender_to_impl IsSenderReceiver E =
     (if \<not> IsSenderReceiver then False
      else (is_callable_connect E Rvalue Rvalue \<or>
            is_callable_connect E Rvalue Lvalue \<or>
            is_callable_connect E Rvalue Const_Lvalue \<or>
            is_callable_connect E Lvalue Rvalue \<or>
            is_callable_connect E Lvalue Lvalue \<or>
            is_callable_connect E Lvalue Const_Lvalue \<or>
            is_callable_connect E Const_Lvalue Rvalue \<or>
            is_callable_connect E Const_Lvalue Lvalue \<or>
            is_callable_connect E Const_Lvalue Const_Lvalue))"

definition is_sender_to :: "connect_env \<Rightarrow> bool" where
  "is_sender_to E = is_sender_to_impl (is_sender (sender_info E) \<and> receiver_ok E) E"

text \<open>Example types for the closed theorems below.\<close>

definition plain_sender :: sender_type where
  "plain_sender = \<lparr>move_constructible = True, value_types = True, error_types = True,
     sends_done = True, explicit_specialization = None\<rparr>"

definition bare_class :: sender_type where
  "bare_class = \<lparr>move_constructible = True, value_types = False, error_types = False,
     sends_done = False, explicit_specialization = None\<rparr>"

text \<open>A class without the three members, made a sender by an explicit specialisation of
  \<open>sender_traits\<close>.\<close>

definition specialised_class :: sender_type where
  "specialised_class = \<lparr>move_constructible = True, value_types = False, error_types = False,
     sends_done = False,
     explicit_specialization = Some \<lparr>exposes_value_types = True, exposes_error_types = True,
       exposes_sends_done = True, unspecialized = False\<rparr>\<rparr>"

text \<open>The type \<open>S const volatile\<close> for the class \<open>S\<close> just described as
  \<open>plain_sender\<close>.\<close>

definition const_volatile_sender :: qualified_type where
  "const_volatile_sender = \<lparr>class_of = plain_sender, is_const = True, is_volatile = True,
     reference_of = no_reference\<rparr>"

text \<open>A sender whose \<open>connect\<close> member is rvalue-qualified and takes the receiver by
  rvalue reference: \<open>std::move(s).connect(std::move(r))\<close> is the only form that
  compiles.\<close>

definition rvalue_only_env :: connect_env where
  "rvalue_only_env = \<lparr>sender_info = plain_sender, receiver_ok = True,
     tag_invoke_connect = (\<lambda>ps pr. None),
     member_connect = (\<lambda>ps pr. if ps = Rvalue \<and> pr = Rvalue then Some ''op_state'' else None),
     operation_state = (\<lambda>t. t = ''op_state'')\<rparr>"

text \<open>A class with a \<open>connect\<close> member returning an operation state, but without the
  members \<open>sender_traits\<close> looks for.\<close>

definition untraited_env :: connect_env where
  "untraited_env = \<lparr>sender_info = bare_class, receiver_ok = True,
     tag_invoke_connect = (\<lambda>ps pr. None),
     member_connect = (\<lambda>ps pr. Some ''op_state''),
     operation_state = (\<lambda>t. t = ''op_state'')\<rparr>"

text \<open>A sender with both a customisation and a member.\<close>

definition both_paths_env :: connect_env where
  "both_paths_env = \<lparr>sender_info = plain_sender, receiver_ok = True,
     tag_invoke_connect = (\<lambda>ps pr. Some ''custom_op''),
     member_connect = (\<lambda>ps pr. Some ''member_op''),
     operation_state = (\<lambda>t. t = ''custom_op'' \<or> t = ''member_op'')\<rparr>"

section \<open>The task region of \<open>hpx/parallel/task_region.hpp\<close>\<close>

subsection \<open>Exceptions and the error aggregator\<close>

text \<open>
  An exception in flight is an opaque user error, the \<open>task_canceled_exception\<close> of the
  header, an error raised by the runtime itself (\<open>hpx::exception(hpx::no_state)\<close>, for a
  future without shared state), or a \<open>parallel::exception_list\<close> carrying the
  exceptions it aggregates.
\<close>

datatype exception =
    user_error nat
  | task_canceled_exception
  | no_state
  | exception_list "exception list"

fun is_exception_list :: "exception \<Rightarrow> bool" where
  "is_exception_list (exception_list el) = True"
| "is_exception_list e = False"

text \<open>Modelled from the spec: \<open>exception_list::add\<close> of the class
  \<open>parallel::exception_list\<close> (\<open>hpx/parallel/exception_list.hpp\<close>, not among the
  sources).  The spec describes the aggregator as an ordered sequence of opaque
  captured-error values plus a count; \<open>add\<close> takes one \<open>exception_ptr\<close> and appends
  it.  The flattening the spec speaks of is the loop of
  \<open>handle_task_region_exceptions\<close> below.\<close>

definition add :: "exception list \<Rightarrow> exception \<Rightarrow> exception list" where
  "add errors e = errors @ [e]"

text \<open>Modelled from the spec: \<open>exception_list::get_error_count\<close> of the same class, the
  count of the captured errors.\<close>

definition get_error_count :: "exception list \<Rightarrow> nat" where
  "get_error_count errors = length errors"

text \<open>\<open>detail::handle_task_region_exceptions\<close>, applied to the exception being handled:
  the first handler iterates over a caught \<open>exception_list\<close>, the second adds anything
  else as it is.\<close>

fun handle_task_region_exceptions :: "exception list \<Rightarrow> exception \<Rightarrow> exception list" where
  "handle_task_region_exceptions errors (exception_list el) = foldl add errors el"
| "handle_task_region_exceptions errors e = add errors e"

subsection \<open>Tasks and futures\<close>

text \<open>
  The task-spawning facility and the futures are collaborators of the header
  (\<open>hpx/async.hpp\<close>, \<open>hpx/lcos/future.hpp\<close>, \<open>hpx/lcos/local/dataflow.hpp\<close>,
  \<open>hpx/lcos/wait_all.hpp\<close>, none among the sources); section 6 of the spec gives their
  contract.  A task is given by what its body does in the end: \<open>None\<close> when it
  returns, \<open>Some e\<close> when it throws \<open>e\<close>.  The world is the list of the shared
  states of all futures made by \<open>async\<close>, a future is its index.  A shared state is
  \<open>running\<close> until the scheduler has finished the task, \<open>ready\<close> from then on.
\<close>

datatype shared_state = running "exception option" | ready "exception option"

type_synonym world = "shared_state list"

fun outcome :: "shared_state \<Rightarrow> exception option" where
  "outcome (running r) = r"
| "outcome (ready r) = r"

fun finish :: "shared_state \<Rightarrow> shared_state" where
  "finish (running r) = ready r"
| "finish (ready r) = ready r"

fun state_ready :: "shared_state \<Rightarrow> bool" where
  "state_ready (ready r) = True"
| "state_ready (running r) = False"

text \<open>Modelled from the spec: \<open>hpx::async\<close>, the task-spawning primitive: given a
  callable it returns a future for a task that runs on its own.\<close>

definition async :: "exception option \<Rightarrow> world \<Rightarrow> nat \<times> world" where
  "async f w = (length w, w @ [running f])"

text \<open>Modelled from the spec: blocking on a collection of futures, as \<open>dataflow\<close>,
  \<open>future::get\<close> and \<open>wait_all\<close> do.  When the caller resumes, the tasks waited for
  have finished; no other shared state is touched.\<close>

definition wait_for :: "nat list \<Rightarrow> world \<Rightarrow> world" where
  "wait_for active w = map (\<lambda>(i, s). if i \<in> set active then finish s else s) (enumerate 0 w)"

subsection \<open>\<open>task_region_handle\<close>\<close>

text \<open>The member \<open>tasks_\<close>; the lock \<open>mtx_\<close> shows as the atomicity of each step.\<close>

record task_region_handle =
  tasks :: "nat list"

text \<open>The future returned by \<open>when\<close>: \<open>make_ready_future()\<close>, or the \<open>dataflow\<close>
  of the lambda, which holds its copy of \<open>errors\<close>, over the futures swapped out.\<close>

datatype future = make_ready_future | dataflow "exception list" "nat list"

text \<open>The body of the lambda handed to \<open>dataflow\<close>, run on the states of the futures
  once all of them are ready.\<close>

fun collect :: "exception list \<Rightarrow> shared_state list \<Rightarrow> exception list" where
  "collect errors [] = errors"
| "collect errors (f # results) =
     collect (case f of ready (Some e) \<Rightarrow> add errors e | _ \<Rightarrow> errors) results"

definition continuation :: "exception list \<Rightarrow> shared_state list \<Rightarrow> exception option" where
  "continuation errors results =
     (let errors' = collect errors results
      in if get_error_count errors' \<noteq> 0 then Some (exception_list errors') else None)"

text \<open>\<open>when(exception_list&&)\<close>: the swap under the lock, the early return for an empty
  list, the \<open>dataflow\<close> otherwise.\<close>

definition when_errors :: "exception list \<Rightarrow> task_region_handle \<Rightarrow> future \<times> task_region_handle" where
  "when_errors errors trh =
     (let active = tasks trh;
          trh' = trh\<lparr>tasks := []\<rparr>
      in (if active = [] then make_ready_future else dataflow errors active, trh'))"

text \<open>\<open>when()\<close>, the overload without an argument.\<close>

definition when0 :: "task_region_handle \<Rightarrow> future \<times> task_region_handle" where
  "when0 trh = when_errors [] trh"

text \<open>Modelled from the spec: \<open>future::get\<close> on the future made by \<open>when\<close>.  It
  blocks until the future is ready, which for the \<open>dataflow\<close> is when all its inputs
  are and the lambda has run on them, then returns or rethrows what the lambda threw.
  An index outside the world is a future without shared state: there is nothing to wait
  for, and the join fails with the runtime's own error, which is no
  \<open>exception_list\<close>.\<close>

fun get :: "future \<Rightarrow> world \<Rightarrow> exception option \<times> world" where
  "get make_ready_future w = (None, w)"
| "get (dataflow errors active) w =
     (if list_all (\<lambda>i. i < length w) active
      then (let w' = wait_for active w
            in (continuation errors (map (\<lambda>i. w' ! i) active), w'))
      else (Some no_state, w))"

text \<open>Modelled from the spec: \<open>hpx::wait_all\<close>, which waits and does not rethrow.\<close>

definition wait_all :: "future \<Rightarrow> world \<Rightarrow> world" where
  "wait_all fut w = snd (get fut w)"

text \<open>\<open>run\<close> has no \<open>throw\<close>: it spawns the task, appends the future under the lock
  and returns.  The first component is the exception leaving the call.\<close>

definition run :: "exception option \<Rightarrow> task_region_handle \<Rightarrow> world
    \<Rightarrow> exception option \<times> task_region_handle \<times> world" where
  "run f trh w =
     (let (result, w') = async f w
      in (None, trh\<lparr>tasks := tasks trh @ [result]\<rparr>, w'))"

text \<open>The two handlers of \<open>wait\<close>, applied to an exception leaving \<open>when().get()\<close>;
  \<open>parallel::exception_list(boost::current_exception())\<close> is the list holding that one
  exception.\<close>

fun wait_handlers :: "exception \<Rightarrow> exception" where
  "wait_handlers (exception_list el) = exception_list el"
| "wait_handlers e = exception_list [e]"

definition wait :: "task_region_handle \<Rightarrow> world \<Rightarrow> exception option \<times> task_region_handle \<times> world" where
  "wait trh w =
     (let (fut, trh') = when0 trh;
          (r, w') = get fut w
      in (case r of None \<Rightarrow> None | Some e \<Rightarrow> Some (wait_handlers e), trh', w'))"

text \<open>The destructor: \<open>hpx::wait_all(when())\<close>.\<close>

definition destructor :: "task_region_handle \<Rightarrow> world \<Rightarrow> world" where
  "destructor trh w = (let (fut, trh') = when0 trh in wait_all fut w)"

subsection \<open>The user's body\<close>

text \<open>
  The callable passed to an entry point is user code.  The bodies considered are made of
  calls of \<open>run\<close> and \<open>wait\<close> on the handle, of \<open>throw\<close> statements and of
  \<open>try { block } catch (...) { handler }\<close>, where the flag of \<open>Try\<close> says whether the
  handler ends with \<open>throw;\<close> and so lets the exception it caught go on.  A body ends
  at its last statement, at a \<open>throw\<close> of its own that no handler catches, or where
  \<open>run\<close> or \<open>wait\<close> lets out an exception that no handler catches.
\<close>

datatype action =
    Run "exception option"
  | Wait
  | Throw exception
  | Try "action list" "action list" bool

datatype body_end = returns | throws exception | propagates exception

fun escaping :: "body_end \<Rightarrow> exception option" where
  "escaping returns = None"
| "escaping (throws e) = Some e"
| "escaping (propagates e) = Some e"

fun exec_body :: "action list \<Rightarrow> task_region_handle \<Rightarrow> world
    \<Rightarrow> body_end \<times> task_region_handle \<times> world" where
  "exec_body [] trh w = (returns, trh, w)"
| "exec_body (Run f # rest) trh w =
     (case run f trh w of
        (None, trh', w') \<Rightarrow> exec_body rest trh' w'
      | (Some e, trh', w') \<Rightarrow> (propagates e, trh', w'))"
| "exec_body (Wait # rest) trh w =
     (case wait trh w of
        (None, trh', w') \<Rightarrow> exec_body rest trh' w'
      | (Some e, trh', w') \<Rightarrow> (propagates e, trh', w'))"
| "exec_body (Throw e # rest) trh w = (throws e, trh, w)"
| "exec_body (Try block handler rethrow # rest) trh w =
     (case exec_body block trh w of
        (b, trh1, w1) \<Rightarrow>
          (case escaping b of
             None \<Rightarrow> exec_body rest trh1 w1
           | Some e \<Rightarrow>
               (case exec_body handler trh1 w1 of
                  (b', trh2, w2) \<Rightarrow>
                    (case escaping b' of
                       Some e' \<Rightarrow> (b', trh2, w2)
                     | None \<Rightarrow>
                         if rethrow then (b, trh2, w2) else exec_body rest trh2 w2))))"

subsection \<open>The entry points\<close>

definition task_region :: "action list \<Rightarrow> world \<Rightarrow> exception option \<times> world" where
  "task_region f w =
     (let trh = \<lparr>tasks = []\<rparr>;
          errors = [];
          (b, trh1, w1) = exec_body f trh w;
          errors1 = (case escaping b of
                       None \<Rightarrow> errors
                     | Some e \<Rightarrow> handle_task_region_exceptions errors e);
          (r, trh2, w2) = wait trh1 w1;
          errors2 = (case r of
                       None \<Rightarrow> errors1
                     | Some e \<Rightarrow> handle_task_region_exceptions errors1 e);
          w3 = destructor trh2 w2
      in (if get_error_count errors2 \<noteq> 0 then Some (exception_list errors2) else None, w3))"


text \<open>\<open>task_region(task_execution_policy const&, F&&)\<close>: the future is made by
  \<open>when(std::move(errors))\<close>, then the handle is destroyed.\<close>

definition task_region_policy :: "action list \<Rightarrow> world \<Rightarrow> future \<times> world" where
  "task_region_policy f w =
     (let trh = \<lparr>tasks = []\<rparr>;
          errors = [];
          (b, trh1, w1) = exec_body f trh w;
          errors1 = (case escaping b of
                       None \<Rightarrow> errors
                     | Some e \<Rightarrow> handle_task_region_exceptions errors e);
          (fut, trh2) = when_errors errors1 trh1;
          w2 = destructor trh2 w1
      in (fut, w2))"

definition task_region_final_policy :: "action list \<Rightarrow> world \<Rightarrow> future \<times> world" where
  "task_region_final_policy f w = task_region_policy f w"

subsection \<open>Notions used to state the properties\<close>

text \<open>The errors among a list of task results, in order.\<close>

fun errors_of :: "exception option list \<Rightarrow> exception list" where
  "errors_of [] = []"
| "errors_of (None # rs) = errors_of rs"
| "errors_of (Some e # rs) = e # errors_of rs"

definition task_errors :: "shared_state list \<Rightarrow> exception list" where
  "task_errors ss = errors_of (map outcome ss)"

text \<open>Registering a sequence of tasks by successive calls of \<open>run\<close>.\<close>

fun runs :: "exception option list \<Rightarrow> task_region_handle \<Rightarrow> world \<Rightarrow> task_region_handle \<times> world" where
  "runs [] trh w = (trh, w)"
| "runs (f # fs) trh w = (case run f trh w of (r, trh', w') \<Rightarrow> runs fs trh' w')"

text \<open>\<open>wait\<close> with the calls of \<open>run\<close> that other threads make between the release of
  the lock in \<open>when\<close> and the return of \<open>get\<close>.\<close>

definition wait_interleaved :: "exception option list \<Rightarrow> task_region_handle \<Rightarrow> world
    \<Rightarrow> exception option \<times> task_region_handle \<times> world" where
  "wait_interleaved late trh w =
     (let (fut, trh1) = when0 trh;
          (trh2, w2) = runs late trh1 w;
          (r, w3) = get fut w2
      in (case r of None \<Rightarrow> None | Some e \<Rightarrow> Some (wait_handlers e), trh2, w3))"

text \<open>A failure is known to be pending on a handle when one of its registered futures
  is ready and holds an exception (\<open>has_exception\<close>).\<close>

definition exception_pending :: "task_region_handle \<Rightarrow> world \<Rightarrow> bool" where
  "exception_pending trh w =
     list_ex (\<lambda>i. i < length w \<and> (case w ! i of ready (Some e) \<Rightarrow> True | _ \<Rightarrow> False)) (tasks trh)"


text \<open>The errors of the tasks registered on a handle and not yet swapped out.\<close>

definition pending_errors :: "task_region_handle \<Rightarrow> world \<Rightarrow> exception list" where
  "pending_errors trh w = task_errors (map (\<lambda>i. w ! i) (tasks trh))"

text \<open>A body without \<open>try\<close>.\<close>

fun is_try :: "action \<Rightarrow> bool" where
  "is_try (Try block handler rethrow) = True"
| "is_try a = False"

definition no_handler :: "action list \<Rightarrow> bool" where
  "no_handler f = list_all (\<lambda>a. \<not> is_try a) f"

text \<open>The errors that \<open>handle_task_region_exceptions\<close> takes from the exception leaving
  the body.\<close>

definition escaped_errors :: "body_end \<Rightarrow> exception list" where
  "escaped_errors b =
     (case escaping b of None \<Rightarrow> [] | Some e \<Rightarrow> handle_task_region_exceptions [] e)"


text \<open>The causes that an exception thrown by the body's own \<open>throw\<close> contributes.\<close>

fun own_errors :: "body_end \<Rightarrow> exception list" where
  "own_errors (throws e) = handle_task_region_exceptions [] e"
| "own_errors b = []"

text \<open>No element is itself an \<open>exception_list\<close>.\<close>

definition flat :: "exception list \<Rightarrow> bool" where
  "flat errors = list_all (\<lambda>e. \<not> is_exception_list e) errors"

text \<open>The handle refers to futures of the world only.\<close>

definition valid :: "task_region_handle \<Rightarrow> world \<Rightarrow> bool" where
  "valid trh w = list_all (\<lambda>i. i < length w) (tasks trh)"

section \<open>Properties of the sender/receiver layer\<close>

lemma specialized_iff:
  "specialized S =
     (case explicit_specialization S of
        Some members \<Rightarrow> \<not> unspecialized members
      | None \<Rightarrow> value_types S \<and> error_types S \<and> sends_done S)"
  by (simp add: specialized_def sender_traits_def sender_traits_base_def has_sender_types_def
      has_value_types_def has_error_types_def has_sends_done_def split: option.splits)

lemma connect_signature_eq:
  "connect_signature E ps pr =
     (if is_sender (sender_info E)
      then (case tag_invoke_connect E ps pr of
              Some t \<Rightarrow> Some t
            | None \<Rightarrow> member_connect E ps pr)
      else None)"
  by (simp add: connect_signature_def operation_select_def tag_invoke_impl_def
      is_tag_invocable_def split: option.splits)

text \<open>
  The sender query where it compiles.  At a type that is not both \<open>const\<close> and
  \<open>volatile\<close>, \<open>is_sender<T>\<close> is true exactly when the class is move constructible
  and \<open>sender_traits<T>\<close> does not declare \<open>__unspecialized\<close>: it is an explicit
  specialisation without the marker, or the primary template for a class that declares
  \<open>value_types\<close>, \<open>error_types\<close> and \<open>sends_done\<close>.  Without either,
  \<open>sender_traits<T>\<close> is the base that declares only \<open>__unspecialized\<close> and the
  query is an ordinary \<open>false\<close>.
\<close>

lemma is_sender_at_unambiguous:
  assumes "\<not> (is_const T \<and> is_volatile T)"
  shows "is_sender_at T = well_formed (is_sender (class_of T))"
    and "is_sender (class_of T) \<longleftrightarrow>
           move_constructible (class_of T) \<and> \<not> unspecialized (sender_traits (class_of T))"
    and "explicit_specialization (class_of T) = None \<Longrightarrow>
           unspecialized (sender_traits (class_of T)) \<longleftrightarrow>
             \<not> (value_types (class_of T) \<and> error_types (class_of T) \<and> sends_done (class_of T))"
    and "explicit_specialization (class_of T) = Some members \<Longrightarrow>
           sender_traits (class_of T) = members"
  using assms
  by (auto simp: is_sender_at_def sender_traits_at_def sender_traits_cv_def is_sender_def
      specialized_def sender_traits_def sender_traits_base_def has_sender_types_def
      has_value_types_def has_error_types_def has_sends_done_def
      split: reference.splits)

lemma is_sender_examples:
  "is_sender plain_sender \<and> \<not> is_sender bare_class \<and> is_sender specialised_class"
  by (simp add: is_sender_def specialized_iff plain_sender_def bare_class_def
      specialised_class_def)

text \<open>
  C8, where the header fails.  For a class \<open>S\<close> that is a sender, the query
  \<open>is_sender<S const volatile>\<close> does not evaluate to \<open>true\<close> or to \<open>false\<close>:
  the partial specialisations \<open>sender_traits<Sender const>\<close> and
  \<open>sender_traits<Sender volatile>\<close> both match, the instantiation of
  \<open>sender_traits<S const volatile>\<close> is ambiguous and the program is ill formed.  For
  \<open>S\<close>, \<open>S const\<close> and \<open>S volatile\<close> the query is \<open>true\<close>.
\<close>

theorem is_sender_const_volatile_ill_formed:
  "is_sender_at const_volatile_sender = ill_formed
   \<and> sender_traits_at const_volatile_sender = ill_formed
   \<and> is_sender_at (const_volatile_sender\<lparr>is_volatile := False\<rparr>) = well_formed True
   \<and> is_sender_at (const_volatile_sender\<lparr>is_const := False\<rparr>) = well_formed True
   \<and> is_sender (class_of const_volatile_sender)"
  by (simp add: is_sender_at_def sender_traits_at_def sender_traits_cv_def is_sender_def
      specialized_def sender_traits_def sender_traits_base_def has_sender_types_def
      has_value_types_def has_error_types_def has_sends_done_def const_volatile_sender_def
      plain_sender_def)

text \<open>
  C4, as the header has it.  The claim asks for all nine ways of passing the two
  arguments; \<open>is_sender_to_impl\<close> joins the nine \<open>is_callable\<close> queries with
  \<open>||\<close>.  For the sender with the rvalue-qualified \<open>connect\<close> the trait is true
  although passing both arguments as lvalues does not compile.
\<close>

theorem is_sender_to_not_all_forms:
  "is_sender_to rvalue_only_env \<and> is_sender (sender_info rvalue_only_env)
   \<and> receiver_ok rvalue_only_env \<and> \<not> is_callable_connect rvalue_only_env Lvalue Lvalue"
  by (simp add: is_sender_to_def is_sender_to_impl_def is_callable_connect_def
      connect_signature_eq is_sender_def specialized_iff rvalue_only_env_def plain_sender_def)

text \<open>
  C4, amended.  \<open>is_sender_to<Sender, Receiver>\<close> is true exactly when the sender
  capability holds for \<open>Sender\<close>, the receiver capability holds for \<open>Receiver\<close>, and
  \<open>connect\<close> is invocable for at least one of the nine combinations.
\<close>

theorem is_sender_to_iff_some_form:
  "is_sender_to E \<longleftrightarrow>
     is_sender (sender_info E) \<and> receiver_ok E \<and> (\<exists>ps pr. is_callable_connect E ps pr)"
proof -
  have "(\<exists>ps pr. is_callable_connect E ps pr) \<longleftrightarrow>
        (is_callable_connect E Rvalue Rvalue \<or> is_callable_connect E Rvalue Lvalue \<or>
         is_callable_connect E Rvalue Const_Lvalue \<or> is_callable_connect E Lvalue Rvalue \<or>
         is_callable_connect E Lvalue Lvalue \<or> is_callable_connect E Lvalue Const_Lvalue \<or>
         is_callable_connect E Const_Lvalue Rvalue \<or> is_callable_connect E Const_Lvalue Lvalue \<or>
         is_callable_connect E Const_Lvalue Const_Lvalue)" (is "?L \<longleftrightarrow> ?R")
  proof
    assume ?L
    then obtain ps pr where c: "is_callable_connect E ps pr" by blast
    show ?R
      by (cases ps; cases pr) (use c in simp_all)
  next
    assume ?R
    then show ?L by blast
  qed
  then show ?thesis
    unfolding is_sender_to_def is_sender_to_impl_def by (simp only: if_False if_True simp_thms split: if_split) blast
qed

theorem is_sender_to_iff_some_form_witness:
  "is_sender_to rvalue_only_env \<and> (\<exists>ps pr. is_callable_connect rvalue_only_env ps pr)
   \<and> \<not> is_sender_to untraited_env"
  using is_sender_to_iff_some_form [of rvalue_only_env] is_sender_to_iff_some_form [of untraited_env]
  by (simp add: is_sender_to_def is_sender_to_impl_def is_callable_connect_def
      connect_signature_eq is_sender_def specialized_iff rvalue_only_env_def plain_sender_def
      untraited_env_def bare_class_def)

text \<open>
  C7.  For a sender \<open>s\<close> and a receiver \<open>r\<close>, \<open>connect(s, r)\<close> is accepted with
  result type \<open>t\<close> exactly when the expression chosen is of type \<open>t\<close> (the
  \<open>tag_invoke\<close> customisation when there is one, the sender's own \<open>connect\<close> member
  only when there is none) and \<open>t\<close> is an operation state.  Otherwise the call is
  rejected at compile time: there is no viable overload exactly when neither path exists,
  and the \<open>static_assert\<close> fails exactly when the chosen expression is no operation
  state.
\<close>

theorem connect_accepted_iff:
  assumes "is_sender (sender_info E)"
  shows "(connect E ps pr = Accepted t \<longleftrightarrow>
      (case tag_invoke_connect E ps pr of
            Some u \<Rightarrow> u = t
          | None \<Rightarrow> member_connect E ps pr = Some t)
      \<and> operation_state E t)
   \<and> (connect E ps pr = No_Viable_Overload \<longleftrightarrow>
      tag_invoke_connect E ps pr = None \<and> member_connect E ps pr = None)
   \<and> (connect E ps pr = Static_Assert_Failed \<longleftrightarrow>
      (case tag_invoke_connect E ps pr of
            Some u \<Rightarrow> \<not> operation_state E u
          | None \<Rightarrow> (case member_connect E ps pr of
                       Some u \<Rightarrow> \<not> operation_state E u
                     | None \<Rightarrow> False)))"
  using assms by (auto simp: connect_def connect_signature_eq split: option.splits)

theorem connect_accepted_iff_witness:
  "is_sender (sender_info both_paths_env)
   \<and> connect both_paths_env Lvalue Rvalue = Accepted ''custom_op''
   \<and> connect both_paths_env Lvalue Rvalue \<noteq> Accepted ''member_op''
   \<and> is_sender (sender_info rvalue_only_env)
   \<and> connect rvalue_only_env Rvalue Rvalue = Accepted ''op_state''
   \<and> connect rvalue_only_env Lvalue Rvalue = No_Viable_Overload"
proof -
  have b: "is_sender (sender_info both_paths_env)"
    by (simp add: is_sender_def specialized_iff both_paths_env_def plain_sender_def)
  have r: "is_sender (sender_info rvalue_only_env)"
    by (simp add: is_sender_def specialized_iff rvalue_only_env_def plain_sender_def)
  show ?thesis
    using b r
      connect_accepted_iff [OF b, of Lvalue Rvalue "''custom_op''"]
      connect_accepted_iff [OF b, of Lvalue Rvalue "''member_op''"]
      connect_accepted_iff [OF r, of Rvalue Rvalue "''op_state''"]
      connect_accepted_iff [OF r, of Lvalue Rvalue "''op_state''"]
    by (simp add: both_paths_env_def rvalue_only_env_def)
qed

text \<open>The hypothesis is used: a class whose \<open>connect\<close> member returns an operation
  state, but which is no sender, is rejected, since \<open>operation_select\<close> has no overload
  for that case.\<close>

lemma connect_rejects_non_sender:
  "connect untraited_env Rvalue Rvalue = No_Viable_Overload
   \<and> tag_invoke_connect untraited_env Rvalue Rvalue = None
   \<and> member_connect untraited_env Rvalue Rvalue = Some ''op_state''
   \<and> operation_state untraited_env ''op_state''"
  by (simp add: connect_def connect_signature_eq is_sender_def specialized_iff
      untraited_env_def bare_class_def)

section \<open>Properties of the task region\<close>

subsection \<open>The aggregator and the futures\<close>

lemma foldl_add: "foldl add errors el = errors @ el"
  by (induction el arbitrary: errors) (simp_all add: add_def)

lemma handle_eq:
  "handle_task_region_exceptions errors e =
     errors @ (case e of exception_list el \<Rightarrow> el | _ \<Rightarrow> [e])"
  by (cases e) (simp_all add: foldl_add add_def)

lemma collect_eq: "list_all state_ready results \<Longrightarrow> collect errors results = errors @ task_errors results"
proof (induction results arbitrary: errors)
  case Nil
  then show ?case by (simp add: task_errors_def)
next
  case (Cons f results)
  then show ?case
    by (cases f; cases "outcome f") (auto simp: task_errors_def add_def)
qed

lemma length_wait_for [simp]: "length (wait_for active w) = length w"
  by (simp add: wait_for_def)

lemma nth_wait_for:
  "i < length w \<Longrightarrow> wait_for active w ! i = (if i \<in> set active then finish (w ! i) else w ! i)"
  by (simp add: wait_for_def nth_enumerate_eq)

lemma outcome_finish [simp]: "outcome (finish s) = outcome s"
  by (cases s) simp_all

lemma state_ready_finish [simp]: "state_ready (finish s)"
  by (cases s) simp_all

lemma map_outcome_wait_for [simp]: "map outcome (wait_for active w) = map outcome w"
  by (rule nth_equalityI) (simp_all add: nth_wait_for)

lemma wait_for_Nil [simp]: "wait_for [] w = w"
  by (rule nth_equalityI) (simp_all add: nth_wait_for)


lemma errors_of_append [simp]: "errors_of (xs @ ys) = errors_of xs @ errors_of ys"
  by (induction xs rule: errors_of.induct) simp_all

lemma task_errors_append: "task_errors (xs @ ys) = task_errors xs @ task_errors ys"
  by (simp add: task_errors_def)

lemma run_eq: "run f trh w = (None, trh\<lparr>tasks := tasks trh @ [length w]\<rparr>, w @ [running f])"
  by (simp add: run_def async_def)

lemma get_dataflow:
  assumes "list_all (\<lambda>i. i < length w) active"
  shows "get (dataflow errors active) w =
     (if errors @ task_errors (map (\<lambda>i. w ! i) active) = [] then None
      else Some (exception_list (errors @ task_errors (map (\<lambda>i. w ! i) active))),
      wait_for active w)"
proof -
  have m: "map (\<lambda>i. wait_for active w ! i) active = map (\<lambda>i. finish (w ! i)) active"
    using assms by (auto simp: list_all_iff nth_wait_for)
  have r: "list_all state_ready (map (\<lambda>i. finish (w ! i)) active)"
    by (simp add: list_all_iff)
  have t: "task_errors (map (\<lambda>i. finish (w ! i)) active) = task_errors (map (\<lambda>i. w ! i) active)"
    by (simp add: task_errors_def comp_def)
  show ?thesis
    using assms
    by (simp add: Let_def continuation_def m collect_eq [OF r] t get_error_count_def)
qed

lemma wait_eq:
  assumes "valid trh w"
  shows "wait trh w =
     (if pending_errors trh w = [] then None else Some (exception_list (pending_errors trh w)),
      trh\<lparr>tasks := []\<rparr>, wait_for (tasks trh) w)"
proof (cases "tasks trh = []")
  case True
  then show ?thesis
    by (simp add: wait_def when0_def when_errors_def pending_errors_def task_errors_def)
next
  case False
  from assms have v: "list_all (\<lambda>i. i < length w) (tasks trh)"
    by (simp add: valid_def)
  show ?thesis
    using False
    by (simp add: wait_def when0_def when_errors_def get_dataflow [OF v] pending_errors_def
        del: get.simps)
qed

lemma exec_body_valid:
  "valid trh w \<Longrightarrow> exec_body f trh w = (b, trh', w') \<Longrightarrow> valid trh' w'"
proof (induction "size_list size f" arbitrary: f trh w b trh' w' rule: less_induct)
  case less
  note IH = less.hyps
  show ?case
  proof (cases f)
    case Nil
    with less.prems show ?thesis by simp
  next
    case (Cons a rest)
    have sr: "size_list size rest < size_list size f"
      using Cons by simp
    show ?thesis
    proof (cases a)
      case (Run t)
      have "valid (trh\<lparr>tasks := tasks trh @ [length w]\<rparr>) (w @ [running t])"
        using less.prems(1) by (auto simp: valid_def list_all_iff)
      moreover have "exec_body rest (trh\<lparr>tasks := tasks trh @ [length w]\<rparr>) (w @ [running t])
          = (b, trh', w')"
        using less.prems(2) Cons Run by (simp add: run_eq)
      ultimately show ?thesis
        by (rule IH [OF sr])
    next
      case Wait
      show ?thesis
      proof (cases "pending_errors trh w = []")
        case True
        have "valid (trh\<lparr>tasks := []\<rparr>) (wait_for (tasks trh) w)"
          by (simp add: valid_def)
        moreover have "exec_body rest (trh\<lparr>tasks := []\<rparr>) (wait_for (tasks trh) w) = (b, trh', w')"
          using less.prems(2) Cons Wait True by (simp add: wait_eq [OF less.prems(1)])
        ultimately show ?thesis
          by (rule IH [OF sr])
      next
        case False
        then have "trh' = trh\<lparr>tasks := []\<rparr>"
          using less.prems(2) Cons Wait by (simp add: wait_eq [OF less.prems(1)])
        then show ?thesis
          by (simp add: valid_def)
      qed
    next
      case (Throw e)
      with less.prems Cons show ?thesis by simp
    next
      case (Try block handler rethrow)
      have sb: "size_list size block < size_list size f"
        and sh: "size_list size handler < size_list size f"
        using Cons Try by simp_all
      obtain b1 trh1 w1 where e1: "exec_body block trh w = (b1, trh1, w1)"
        by (cases "exec_body block trh w") auto
      have v1: "valid trh1 w1"
        by (rule IH [OF sb less.prems(1) e1])
      show ?thesis
      proof (cases "escaping b1")
        case None
        then have "exec_body rest trh1 w1 = (b, trh', w')"
          using less.prems(2) Cons Try e1 by simp
        with v1 show ?thesis
          by (rule IH [OF sr])
      next
        case (Some e)
        obtain b2 trh2 w2 where e2: "exec_body handler trh1 w1 = (b2, trh2, w2)"
          by (cases "exec_body handler trh1 w1") auto
        have v2: "valid trh2 w2"
          by (rule IH [OF sh v1 e2])
        show ?thesis
        proof (cases "escaping b2 = None \<and> \<not> rethrow")
          case True
          then have "exec_body rest trh2 w2 = (b, trh', w')"
            using less.prems(2) Cons Try e1 e2 Some by simp
          with v2 show ?thesis
            by (rule IH [OF sr])
        next
          case False
          then have "trh' = trh2" and "w' = w2"
            using less.prems(2) Cons Try e1 e2 Some by (auto split: option.splits if_splits)
          with v2 show ?thesis by simp
        qed
      qed
    qed
  qed
qed

lemma exec_body_spec:
  assumes "no_handler f" and "valid trh w" and "exec_body f trh w = (b, trh', w')"
  shows "valid trh' w' \<and>
    (\<exists>new. map outcome w' = map outcome w @ new \<and>
       (case b of
          propagates e \<Rightarrow> e = exception_list (pending_errors trh w @ errors_of new)
                          \<and> pending_errors trh w @ errors_of new \<noteq> [] \<and> tasks trh' = []
        | _ \<Rightarrow> pending_errors trh' w' = pending_errors trh w @ errors_of new))"
  using assms
proof (induction f arbitrary: trh w)
  case Nil
  then show ?case by auto
next
  case (Cons a rest)
  have nr: "no_handler rest" and na: "\<not> is_try a"
    using Cons.prems(1) by (simp_all add: no_handler_def)
  show ?case
  proof (cases a)
    case (Run t)
    let ?trh1 = "trh\<lparr>tasks := tasks trh @ [length w]\<rparr>"
    let ?w1 = "w @ [running t]"
    have v1: "valid ?trh1 ?w1"
      using Cons.prems(2) by (auto simp: valid_def list_all_iff)
    have e1: "exec_body rest ?trh1 ?w1 = (b, trh', w')"
      using Cons.prems(3) Run by (simp add: run_eq)
    have p1: "pending_errors ?trh1 ?w1 = pending_errors trh w @ errors_of [t]"
    proof -
      have "map (\<lambda>i. ?w1 ! i) (tasks trh) = map (\<lambda>i. w ! i) (tasks trh)"
        using Cons.prems(2) by (auto simp: valid_def list_all_iff nth_append)
      moreover have "pending_errors ?trh1 ?w1 =
          task_errors (map (\<lambda>i. ?w1 ! i) (tasks trh)) @ task_errors [running t]"
        by (simp add: pending_errors_def task_errors_append)
      ultimately show ?thesis
        by (simp only: pending_errors_def) (simp add: task_errors_def)
    qed
    from Cons.IH [OF nr v1 e1] obtain new where
      v: "valid trh' w'" and m: "map outcome w' = map outcome ?w1 @ new" and
      c: "(case b of
          propagates e \<Rightarrow> e = exception_list (pending_errors ?trh1 ?w1 @ errors_of new)
                          \<and> pending_errors ?trh1 ?w1 @ errors_of new \<noteq> [] \<and> tasks trh' = []
        | _ \<Rightarrow> pending_errors trh' w' = pending_errors ?trh1 ?w1 @ errors_of new)"
      by blast
    have m': "map outcome w' = map outcome w @ (t # new)"
      using m by simp
    have "errors_of [t] @ errors_of new = errors_of (t # new)"
      by (cases t) simp_all
    with c p1 have c': "(case b of
          propagates e \<Rightarrow> e = exception_list (pending_errors trh w @ errors_of (t # new))
                          \<and> pending_errors trh w @ errors_of (t # new) \<noteq> [] \<and> tasks trh' = []
        | _ \<Rightarrow> pending_errors trh' w' = pending_errors trh w @ errors_of (t # new))"
      by (simp split: body_end.splits)
    from v m' c' show ?thesis by blast
  next
    case Wait
    show ?thesis
    proof (cases "pending_errors trh w = []")
      case True
      let ?trh1 = "trh\<lparr>tasks := []\<rparr>"
      let ?w1 = "wait_for (tasks trh) w"
      have v1: "valid ?trh1 ?w1" by (simp add: valid_def)
      have e1: "exec_body rest ?trh1 ?w1 = (b, trh', w')"
        using Cons.prems(3) Wait True by (simp add: wait_eq [OF Cons.prems(2)])
      have p1: "pending_errors ?trh1 ?w1 = []"
        by (simp add: pending_errors_def task_errors_def)
      from Cons.IH [OF nr v1 e1] obtain new where
        v: "valid trh' w'" and m: "map outcome w' = map outcome ?w1 @ new" and
        c: "(case b of
            propagates e \<Rightarrow> e = exception_list (pending_errors ?trh1 ?w1 @ errors_of new)
                            \<and> pending_errors ?trh1 ?w1 @ errors_of new \<noteq> [] \<and> tasks trh' = []
          | _ \<Rightarrow> pending_errors trh' w' = pending_errors ?trh1 ?w1 @ errors_of new)"
        by blast
      have m': "map outcome w' = map outcome w @ new"
        using m by simp
      from c have c': "(case b of
            propagates e \<Rightarrow> e = exception_list (pending_errors trh w @ errors_of new)
                            \<and> pending_errors trh w @ errors_of new \<noteq> [] \<and> tasks trh' = []
          | _ \<Rightarrow> pending_errors trh' w' = pending_errors trh w @ errors_of new)"
        by (simp only: p1 True)
      from v m' c' show ?thesis by blast
    next
      case False
      have "b = propagates (exception_list (pending_errors trh w))"
        and "trh' = trh\<lparr>tasks := []\<rparr>" and "w' = wait_for (tasks trh) w"
        using Cons.prems(3) Wait False by (simp_all add: wait_eq [OF Cons.prems(2)])
      then show ?thesis
        using False by (simp add: valid_def)
    qed
  next
    case (Throw e)
    then show ?thesis
      using Cons.prems by auto
  next
    case (Try block handler rethrow)
    with na show ?thesis by simp
  qed
qed


lemma destructor_empty: "tasks trh = [] \<Longrightarrow> destructor trh w = w"
  by (simp add: destructor_def when0_def when_errors_def wait_all_def)

lemma empty_handle [simp]:
  "valid \<lparr>tasks = []\<rparr> w" "pending_errors \<lparr>tasks = []\<rparr> w = []"
  by (simp_all add: valid_def pending_errors_def task_errors_def)

lemma task_region_result:
  assumes "exec_body f \<lparr>tasks = []\<rparr> w = (b, trh1, w1)"
  shows "task_region f w =
     (if escaped_errors b @ pending_errors trh1 w1 = [] then None
      else Some (exception_list (escaped_errors b @ pending_errors trh1 w1)),
      wait_for (tasks trh1) w1)"
proof -
  have v: "valid trh1 w1"
    by (rule exec_body_valid [OF _ assms]) simp
  show ?thesis
    by (simp add: task_region_def assms wait_eq [OF v] destructor_empty handle_eq
        escaped_errors_def get_error_count_def Let_def split: option.splits)
qed


text \<open>For a body without handlers, what leaves the body and what is still pending add up
  to the body's own errors and the errors of all the tasks it spawned.\<close>

lemma no_handler_causes:
  assumes "no_handler f" and "exec_body f \<lparr>tasks = []\<rparr> w = (b, trh1, w1)"
  shows "escaped_errors b @ pending_errors trh1 w1 =
           own_errors b @ task_errors (drop (length w) w1)"
    and "b = returns \<or> b = throws e \<Longrightarrow> tasks trh1 = [] \<Longrightarrow> task_errors (drop (length w) w1) = []"
proof -
  have v0: "valid \<lparr>tasks = []\<rparr> w" by simp
  from exec_body_spec [OF assms(1) v0 assms(2)] obtain new where
    m: "map outcome w1 = map outcome w @ new" and
    c0: "(case b of
          propagates e \<Rightarrow> e = exception_list (pending_errors \<lparr>tasks = []\<rparr> w @ errors_of new)
                          \<and> pending_errors \<lparr>tasks = []\<rparr> w @ errors_of new \<noteq> [] \<and> tasks trh1 = []
        | _ \<Rightarrow> pending_errors trh1 w1 = pending_errors \<lparr>tasks = []\<rparr> w @ errors_of new)"
    by blast
  from c0 have c: "(case b of
          propagates e \<Rightarrow> e = exception_list (errors_of new) \<and> errors_of new \<noteq> [] \<and> tasks trh1 = []
        | _ \<Rightarrow> pending_errors trh1 w1 = errors_of new)"
    by (simp only: empty_handle append_Nil)
  have "map outcome (drop (length w) w1) = drop (length w) (map outcome w1)"
    by (simp only: drop_map)
  also have "\<dots> = new"
    by (simp add: m)
  finally have n: "task_errors (drop (length w) w1) = errors_of new"
    by (simp add: task_errors_def)
  have pe: "tasks trh1 = [] \<Longrightarrow> pending_errors trh1 w1 = []"
    by (simp add: pending_errors_def task_errors_def)
  show "escaped_errors b @ pending_errors trh1 w1 =
           own_errors b @ task_errors (drop (length w) w1)"
    using c pe by (cases b) (auto simp: n escaped_errors_def handle_eq)
  show "task_errors (drop (length w) w1) = []" if "b = returns \<or> b = throws e" "tasks trh1 = []"
    using that c pe by (auto simp: n)
qed

lemma runs_eq:
  "runs ts trh w =
     (trh\<lparr>tasks := tasks trh @ [length w ..< length w + length ts]\<rparr>, w @ map running ts)"
proof (induction ts arbitrary: trh w)
  case Nil
  then show ?case by simp
next
  case (Cons t ts)
  have "[length w..<length w + Suc (length ts)] = length w # [Suc (length w)..<Suc (length w) + length ts]"
    by (simp add: upt_rec)
  then show ?case
    by (simp add: run_eq Cons.IH)
qed


lemma finish_finish [simp]: "finish (finish s) = finish s"
  by (cases s) simp_all

lemma joined_world:
  "wait_for [length w ..< length w + length ts]
      (wait_for finished (w @ map running ts) @ map running late) =
   wait_for finished w @ map ready ts @ map running late" (is "?l = ?r")
proof (rule nth_equalityI)
  show "length ?l = length ?r" by simp
next
  fix i assume "i < length ?l"
  then have i: "i < length w + length ts + length late" by simp
  consider "i < length w" | "length w \<le> i" "i < length w + length ts"
    | "length w + length ts \<le> i" by linarith
  then show "?l ! i = ?r ! i"
  proof cases
    case 1
    then show ?thesis
      by (simp add: nth_wait_for nth_append)
  next
    case 2
    then have "?l ! i = finish (wait_for finished (w @ map running ts) ! i)"
      by (simp add: nth_wait_for nth_append)
    also have "\<dots> = ready (ts ! (i - length w))"
      using 2 by (simp add: nth_wait_for nth_append)
    finally show ?thesis
      using 2 by (simp add: nth_append)
  next
    case 3
    then show ?thesis
      using i by (simp add: nth_wait_for nth_append)
  qed
qed

lemma joined_errors:
  "task_errors (map (\<lambda>i. (wait_for finished (w @ map running ts) @ map running late) ! i)
      [length w ..< length w + length ts]) = errors_of ts"
proof -
  have "map (\<lambda>i. outcome ((wait_for finished (w @ map running ts) @ map running late) ! i))
      [length w ..< length w + length ts] = ts"
    by (rule nth_equalityI) (simp_all add: nth_wait_for nth_append)
  then show ?thesis
    by (simp add: task_errors_def comp_def)
qed

lemma wait_is_wait_interleaved: "wait trh w = wait_interleaved [] trh w"
  by (simp add: wait_def wait_interleaved_def split: prod.splits)




lemma wait_handlers_list: "is_exception_list (wait_handlers e)"
  by (cases e) simp_all

lemma wait_result:
  "fst (wait trh w) = map_option wait_handlers (fst (get (fst (when0 trh)) w))"
  by (simp add: wait_def split: prod.splits option.splits)

lemma wait_interleaved_after_runs:
  "(case runs ts \<lparr>tasks = []\<rparr> w of
      (trh, w1) \<Rightarrow> wait_interleaved late trh (wait_for finished w1)) =
     (if errors_of ts = [] then None else Some (exception_list (errors_of ts)),
      \<lparr>tasks = [length w + length ts ..< length w + length ts + length late]\<rparr>,
      wait_for finished w @ map ready ts @ map running late)"
proof (cases "ts = []")
  case True
  then show ?thesis
    by (simp add: runs_eq wait_interleaved_def when0_def when_errors_def)
next
  case False
  have v: "list_all (\<lambda>i. i < length (wait_for finished (w @ map running ts) @ map running late))
      [length w ..< length w + length ts]"
    by (simp add: list_all_iff)
  from False show ?thesis
    by (simp add: runs_eq wait_interleaved_def when0_def when_errors_def
        get_dataflow [OF v] joined_world joined_errors del: get.simps)
qed


subsection \<open>Joining\<close>

text \<open>
  C1.  Let \<open>N\<close> tasks \<open>ts\<close> be registered by \<open>run\<close> on a handle whose list is empty,
  in any world \<open>w\<close>, and let the scheduler have finished any tasks \<open>finished\<close> by the
  time \<open>wait\<close> is called.  When \<open>wait\<close> returns, each of the \<open>N\<close> tasks is
  \<open>ready\<close>, and what \<open>wait\<close> throws holds exactly the errors of those \<open>N\<close>.
  Tasks \<open>late\<close> that other threads register after the swap are not joined: they are
  still \<open>running\<close> when \<open>wait\<close> returns, their errors are not in what it throws, and
  they are the handle's list for the next \<open>wait\<close>.
\<close>

theorem wait_joins_registered_tasks:
  "(case runs ts \<lparr>tasks = []\<rparr> w of
      (trh, w1) \<Rightarrow> wait trh (wait_for finished w1)) =
     (if errors_of ts = [] then None else Some (exception_list (errors_of ts)),
      \<lparr>tasks = []\<rparr>,
      wait_for finished w @ map ready ts)
   \<and> (case runs ts \<lparr>tasks = []\<rparr> w of
      (trh, w1) \<Rightarrow> wait_interleaved late trh (wait_for finished w1)) =
     (if errors_of ts = [] then None else Some (exception_list (errors_of ts)),
      \<lparr>tasks = [length w + length ts ..< length w + length ts + length late]\<rparr>,
      wait_for finished w @ map ready ts @ map running late)"
  using wait_interleaved_after_runs [where ts = ts and w = w and late = "[]" and finished = finished]
    wait_interleaved_after_runs [where ts = ts and w = w and late = late and finished = finished]
  by (simp add: wait_is_wait_interleaved)

theorem wait_joins_registered_tasks_witness:
  "(case runs [None, Some (user_error 1)] \<lparr>tasks = []\<rparr> [running None] of
      (trh, w1) \<Rightarrow> wait trh (wait_for [1] w1)) =
     (Some (exception_list [user_error 1]), \<lparr>tasks = []\<rparr>,
      [running None, ready None, ready (Some (user_error 1))])
   \<and> (case runs [None, Some (user_error 1)] \<lparr>tasks = []\<rparr> [running None] of
      (trh, w1) \<Rightarrow> wait_interleaved [Some (user_error 7)] trh (wait_for [1] w1)) =
     (Some (exception_list [user_error 1]), \<lparr>tasks = [3]\<rparr>,
      [running None, ready None, ready (Some (user_error 1)), running (Some (user_error 7))])"
  using wait_joins_registered_tasks [where ts = "[None, Some (user_error 1)]"
      and w = "[running None]" and late = "[Some (user_error 7)]" and finished = "[1]"]
  by (simp add: wait_for_def upt_rec)



subsection \<open>Cancellation\<close>

text \<open>
  C5, as the header has it.  A handle has a registered task that is ready and holds an
  exception.  \<open>run\<close> registers one more task and returns; \<open>wait\<close> throws the
  \<open>exception_list\<close> of the failed task, not \<open>task_canceled_exception\<close>.
\<close>

theorem pending_error_does_not_cancel:
  "exception_pending \<lparr>tasks = [0]\<rparr> [ready (Some (user_error 1))]
   \<and> run None \<lparr>tasks = [0]\<rparr> [ready (Some (user_error 1))] =
       (None, \<lparr>tasks = [0, 1]\<rparr>, [ready (Some (user_error 1)), running None])
   \<and> wait \<lparr>tasks = [0]\<rparr> [ready (Some (user_error 1))] =
       (Some (exception_list [user_error 1]), \<lparr>tasks = []\<rparr>, [ready (Some (user_error 1))])
   \<and> exception_list [user_error 1] \<noteq> task_canceled_exception"
  by (simp add: exception_pending_def run_def async_def wait_def when0_def when_errors_def
      wait_for_def continuation_def add_def get_error_count_def Let_def)

text \<open>
  C5, amended.  Neither \<open>run\<close> nor \<open>wait\<close> ever throws
  \<open>task_canceled_exception\<close>, whatever errors are pending: \<open>run\<close> always spawns
  the task, registers its future and returns normally, and \<open>wait\<close> always swaps and
  joins and throws nothing but an \<open>exception_list\<close>, on a handle of the region the
  list of the errors of the failed tasks it joined.
\<close>

theorem run_wait_never_task_canceled:
  "run f trh w = (None, trh\<lparr>tasks := tasks trh @ [length w]\<rparr>, w @ [running f])
   \<and> (fst (wait trh w) = Some e \<longrightarrow> is_exception_list e)
   \<and> fst (wait trh w) \<noteq> Some task_canceled_exception
   \<and> (valid trh w \<longrightarrow>
        wait trh w =
          (if pending_errors trh w = [] then None
           else Some (exception_list (pending_errors trh w)),
           trh\<lparr>tasks := []\<rparr>, wait_for (tasks trh) w))"
proof -
  have 1: "fst (wait trh w) = Some e \<longrightarrow> is_exception_list e" for e
    using wait_handlers_list by (auto simp: wait_result)
  from 1 [of task_canceled_exception]
  have 2: "fst (wait trh w) \<noteq> Some task_canceled_exception"
    by auto
  from 1 [of e] 2 show ?thesis
    by (simp add: run_eq wait_eq)
qed

theorem run_wait_never_task_canceled_witness:
  "exception_pending \<lparr>tasks = [0]\<rparr> [ready (Some (user_error 1))]
   \<and> valid \<lparr>tasks = [0]\<rparr> [ready (Some (user_error 1))]
   \<and> run None \<lparr>tasks = [0]\<rparr> [ready (Some (user_error 1))] =
       (None, \<lparr>tasks = [0, 1]\<rparr>, [ready (Some (user_error 1)), running None])
   \<and> wait \<lparr>tasks = [0]\<rparr> [ready (Some (user_error 1))] =
       (Some (exception_list [user_error 1]), \<lparr>tasks = []\<rparr>, [ready (Some (user_error 1))])
   \<and> is_exception_list (exception_list [user_error 1])"
  using run_wait_never_task_canceled [of None "\<lparr>tasks = [0]\<rparr>" "[ready (Some (user_error 1))]"
      "exception_list [user_error 1]"]
  by (simp add: exception_pending_def valid_def pending_errors_def task_errors_def wait_for_def)

subsection \<open>What the entry points surface\<close>




text \<open>
  C6, as the header has it.  A task that throws an \<open>exception_list\<close> (a task region
  nested in the task does) has that list added by the lambda of \<open>when\<close> as one
  element, and the entry point surfaces a list inside the list.
\<close>

theorem task_region_keeps_nested_list:
  "fst (task_region [Run (Some (exception_list [user_error 1, user_error 2]))] []) =
     Some (exception_list [exception_list [user_error 1, user_error 2]])
   \<and> collect [] [ready (Some (exception_list [user_error 1, user_error 2]))] =
     [exception_list [user_error 1, user_error 2]]"
  by (simp add: task_region_def run_def async_def wait_def when0_def when_errors_def
      wait_for_def continuation_def add_def get_error_count_def destructor_def wait_all_def
      Let_def)

text \<open>
  C6, amended.  \<open>handle_task_region_exceptions\<close> appends the errors contained in a
  caught \<open>exception_list\<close> one by one, and any other exception as one error.  The
  lambda of \<open>when\<close> appends the exception of each failed task as one error, whatever it
  is.  So the composite error of \<open>task_region\<close> consists of the errors taken from the
  exception that leaves the body (what it contains when it is an \<open>exception_list\<close>,
  itself otherwise), followed by the exception, unchanged, of each failed task still
  registered on the handle when the body ends; for a body without handlers these are the
  body's own errors followed by the exception of each failed task it spawned.  The
  composite contains no \<open>exception_list\<close> among its causes whenever none of those task
  exceptions is one and the errors taken from the body's exception contain none.
\<close>

theorem aggregation_one_level:
  "handle_task_region_exceptions errors (exception_list el) = errors @ el
   \<and> (\<not> is_exception_list e \<longrightarrow> handle_task_region_exceptions errors e = errors @ [e])
   \<and> (list_all state_ready results \<longrightarrow> collect errors results = errors @ task_errors results)
   \<and> (case fst (task_region f w) of
        None \<Rightarrow> True
      | Some c \<Rightarrow>
          c = exception_list (escaped_errors (fst (exec_body f \<lparr>tasks = []\<rparr> w))
                @ pending_errors (fst (snd (exec_body f \<lparr>tasks = []\<rparr> w)))
                                 (snd (snd (exec_body f \<lparr>tasks = []\<rparr> w)))))
   \<and> (no_handler f \<longrightarrow>
        (case fst (task_region f w) of
           None \<Rightarrow> True
         | Some c \<Rightarrow>
             c = exception_list (own_errors (fst (exec_body f \<lparr>tasks = []\<rparr> w))
                   @ task_errors (drop (length w) (snd (task_region f w))))))
   \<and> (flat (escaped_errors (fst (exec_body f \<lparr>tasks = []\<rparr> w)))
        \<and> flat (pending_errors (fst (snd (exec_body f \<lparr>tasks = []\<rparr> w)))
                                (snd (snd (exec_body f \<lparr>tasks = []\<rparr> w))))
      \<longrightarrow> (case fst (task_region f w) of
             None \<Rightarrow> True
           | Some c \<Rightarrow> (case c of exception_list causes \<Rightarrow> flat causes | _ \<Rightarrow> False)))"
proof -
  obtain b trh1 w1 where x: "exec_body f \<lparr>tasks = []\<rparr> w = (b, trh1, w1)"
    by (cases "exec_body f \<lparr>tasks = []\<rparr> w") auto
  let ?causes = "escaped_errors b @ pending_errors trh1 w1"
  have r: "task_region f w =
      (if ?causes = [] then None else Some (exception_list ?causes), wait_for (tasks trh1) w1)"
    by (rule task_region_result [OF x])
  have te: "task_errors (drop (length w) (wait_for (tasks trh1) w1)) = task_errors (drop (length w) w1)"
    by (simp add: task_errors_def drop_map [symmetric])
  have 1: "handle_task_region_exceptions errors (exception_list el) = errors @ el"
    by (simp add: handle_eq)
  have 2: "\<not> is_exception_list e \<longrightarrow> handle_task_region_exceptions errors e = errors @ [e]"
    by (cases e) (simp_all add: handle_eq)
  have 3: "list_all state_ready results \<longrightarrow> collect errors results = errors @ task_errors results"
    by (simp add: collect_eq)
  have 4: "(case fst (task_region f w) of None \<Rightarrow> True
      | Some c \<Rightarrow> c = exception_list ?causes)"
    by (simp add: r)
  have 5: "(case fst (task_region f w) of None \<Rightarrow> True
      | Some c \<Rightarrow> c = exception_list (own_errors b
            @ task_errors (drop (length w) (snd (task_region f w)))))"
    if "no_handler f"
  proof -
    have eq: "?causes = own_errors b @ task_errors (drop (length w) (snd (task_region f w)))"
      by (simp add: no_handler_causes(1) [OF that x] r te)
    show ?thesis
      unfolding eq [symmetric] by (rule 4)
  qed
  have 6: "flat (escaped_errors b) \<and> flat (pending_errors trh1 w1) \<longrightarrow>
      (case fst (task_region f w) of None \<Rightarrow> True
      | Some c \<Rightarrow> (case c of exception_list causes \<Rightarrow> flat causes | _ \<Rightarrow> False))"
    by (simp add: r flat_def)
  from 1 2 3 4 5 6 show ?thesis
    unfolding x fst_conv snd_conv by blast
qed

theorem aggregation_one_level_witness:
  "\<not> is_exception_list (user_error 3)
   \<and> handle_task_region_exceptions [user_error 0] (user_error 3) = [user_error 0, user_error 3]
   \<and> handle_task_region_exceptions [user_error 0] (exception_list [user_error 1, user_error 2])
       = [user_error 0, user_error 1, user_error 2]
   \<and> list_all state_ready [ready (Some (user_error 4)), ready None]
   \<and> collect [user_error 0] [ready (Some (user_error 4)), ready None] = [user_error 0, user_error 4]
   \<and> no_handler [Run (Some (user_error 1)), Throw (exception_list [user_error 2, user_error 3])]
   \<and> fst (task_region [Run (Some (user_error 1)), Throw (exception_list [user_error 2, user_error 3])] [])
       = Some (exception_list [user_error 2, user_error 3, user_error 1])
   \<and> flat [user_error 2, user_error 3, user_error 1]"
  using aggregation_one_level [of "[user_error 0]" "[user_error 1, user_error 2]" "user_error 3"
      "[ready (Some (user_error 4)), ready None]"
      "[Run (Some (user_error 1)), Throw (exception_list [user_error 2, user_error 3])]" "[]"]
  by (simp add: task_region_def run_def async_def wait_def when0_def when_errors_def
      wait_for_def continuation_def add_def get_error_count_def destructor_def wait_all_def
      task_errors_def flat_def no_handler_def escaped_errors_def pending_errors_def Let_def)

text \<open>
  C3, where the header drops an error.  With the policy argument, a body that throws
  without a task pending (it spawned none, or it waited for them) leaves \<open>errors\<close>
  non-empty and the list of the handle empty; \<open>when\<close> then returns
  \<open>make_ready_future()\<close>, whose \<open>get\<close> returns normally.  The error caught from the
  body is in no future.  The blocking \<open>task_region\<close> surfaces it.
\<close>

theorem task_region_policy_drops_body_error:
  "task_region_policy [Throw (user_error 1)] [] = (make_ready_future, [])
   \<and> get make_ready_future [] = (None, [])
   \<and> task_region_policy [Run (Some (user_error 2)), Wait] [] =
       (make_ready_future, [ready (Some (user_error 2))])
   \<and> fst (task_region [Throw (user_error 1)] []) = Some (exception_list [user_error 1])"
  by (simp add: task_region_policy_def task_region_def run_def async_def wait_def when0_def
      when_errors_def wait_for_def continuation_def add_def get_error_count_def destructor_def
      wait_all_def Let_def)


end
